theory Spec2Isabelle
  imports Complex_Main "HOL-Library.Sublist"
begin

section \<open>The captcha OCR service (backend/enhanced\_ocr\_service.py)\<close>

text \<open>
  A shallow embedding of class \<open>EnhancedOCRService\<close>. A Python \<open>str\<close> is a
  \<open>string\<close> whose characters stand for the code points below 256. A Python float
  (a confidence, a similarity) is an exact rational: the comparisons of the source are
  made on the exact quotients. The libraries the service calls (PIL, OpenCV, Tesseract,
  EasyOCR, base64, the random generators) are fields of environment records; a call that
  may raise returns \<open>None\<close> (or \<open>Inl\<close> of the message) when it does. The OCR
  engines are functions of their arguments; the calls that draw random numbers take and
  return the state of the generators. The logging collaborator (\<open>self.log\<close>) is
  taken not to raise.
\<close>

subsection \<open>Detections and thresholds\<close>

type_synonym detection = "string \<times> rat"

text \<open>\<open>self.confidence_threshold = 0.5\<close> and \<open>self.similarity_threshold = 0.8\<close>,
  set once in \<open>__init__\<close>.\<close>

definition confidence_threshold :: rat where
  "confidence_threshold = 1 / 2"

definition similarity_threshold :: rat where
  "similarity_threshold = 4 / 5"

subsection \<open>Python string primitives\<close>

text \<open>\<open>sub in s\<close> on strings: \<open>sub\<close> occurs in \<open>s\<close> as a contiguous run.\<close>

fun py_in :: "string \<Rightarrow> string \<Rightarrow> bool" where
  "py_in sub [] = (sub = [])"
| "py_in sub (c # cs) = (prefix sub (c # cs) \<or> py_in sub cs)"

text \<open>The characters \<open>str.strip()\<close> removes (those with \<open>str.isspace\<close>), below 256.\<close>

definition py_isspace :: "char \<Rightarrow> bool" where
  "py_isspace c \<longleftrightarrow> c \<in> set [CHR 0x09, CHR 0x0A, CHR 0x0B, CHR 0x0C, CHR 0x0D,
     CHR 0x1C, CHR 0x1D, CHR 0x1E, CHR 0x1F, CHR 0x20, CHR 0x85, CHR 0xA0]"

definition py_strip :: "string \<Rightarrow> string" where
  "py_strip s = rev (dropWhile py_isspace (rev (dropWhile py_isspace s)))"

text \<open>The decimal digits, which the regular expression \<open>\d\<close> matches.\<close>

definition is_decimal :: "char \<Rightarrow> bool" where
  "is_decimal c \<longleftrightarrow> c \<in> set ''0123456789''"

text \<open>\<open>str.isdigit()\<close>: a non-empty string of digit characters; below 256 these are
  the decimal digits and the superscripts two, three and one.\<close>

definition py_isdigit :: "string \<Rightarrow> bool" where
  "py_isdigit s \<longleftrightarrow> s \<noteq> [] \<and> (\<forall>c \<in> set s. is_decimal c \<or> c \<in> set [CHR 0xB2, CHR 0xB3, CHR 0xB9])"

text \<open>\<open>re.findall(r'\d+', s)\<close>: the maximal runs of decimal digits, left to right.
  The first argument is the run being read.\<close>

fun digit_runs :: "string \<Rightarrow> string \<Rightarrow> string list" where
  "digit_runs cur [] = (if cur = [] then [] else [cur])"
| "digit_runs cur (c # cs) =
     (if is_decimal c then digit_runs (cur @ [c]) cs
      else (if cur = [] then [] else [cur]) @ digit_runs [] cs)"

definition findall_digits :: "string \<Rightarrow> string list" where
  "findall_digits s = digit_runs [] s"

subsection \<open>Result consolidator\<close>

text \<open>\<open>_text_matches_target\<close>: equal, one contained in the other, or the text
  reversed equal to the target.\<close>

definition text_matches_target :: "string \<Rightarrow> string \<Rightarrow> bool" where
  "text_matches_target text target =
     (if text = target then True
      else if py_in target text \<or> py_in text target then True
      else if rev text = target then True
      else False)"

text \<open>\<open>_fuzzy_match\<close>. With two empty strings the division by \<open>len(target)\<close> raises
  ZeroDivisionError, which the bare \<open>except\<close> turns into \<open>False\<close>.\<close>

definition differences :: "string \<Rightarrow> string \<Rightarrow> nat" where
  "differences text target = length (filter (\<lambda>(c1, c2). c1 \<noteq> c2) (zip text target))"

definition fuzzy_match :: "string \<Rightarrow> string \<Rightarrow> bool" where
  "fuzzy_match text target =
     (if length text \<noteq> length target then False
      else if length target = 0 then False
      else similarity_threshold \<le> 1 - of_nat (differences text target) / of_nat (length target))"

text \<open>The dictionary \<open>text_groups\<close>, in insertion order: one entry per text, holding
  the confidences seen for it.\<close>

fun group_add :: "(string \<times> rat list) list \<Rightarrow> string \<Rightarrow> rat \<Rightarrow> (string \<times> rat list) list" where
  "group_add [] text c = [(text, [c])]"
| "group_add ((k, cs) # rest) text c =
     (if k = text then (k, cs @ [c]) # rest else (k, cs) # group_add rest text c)"

definition text_groups :: "detection list \<Rightarrow> (string \<times> rat list) list" where
  "text_groups all_results = foldl (\<lambda>groups (text, c). group_add groups text c) [] all_results"

definition avg_confidence :: "rat list \<Rightarrow> rat" where
  "avg_confidence cs = sum_list cs / of_nat (length cs)"

text \<open>\<open>final_results\<close> after \<open>sort(key=lambda x: x[1], reverse=True)\<close>: a stable sort,
  highest average confidence first. The averages are exact here; where a float average
  rounds, the code may order two texts of nearly equal confidence the other way. The
  texts returned are the same, and no property below states their order.\<close>

definition final_results :: "detection list \<Rightarrow> detection list" where
  "final_results all_results =
     sort_key (\<lambda>x. - snd x) (map (\<lambda>(text, cs). (text, avg_confidence cs)) (text_groups all_results))"

definition exact_pass :: "detection list \<Rightarrow> string \<Rightarrow> string list" where
  "exact_pass results target = map fst (filter (\<lambda>(text, c). text_matches_target text target) results)"

definition fuzzy_pass :: "detection list \<Rightarrow> string \<Rightarrow> string list" where
  "fuzzy_pass results target = map fst (filter (\<lambda>(text, c). fuzzy_match text target) results)"

definition consolidate_results :: "detection list \<Rightarrow> string \<Rightarrow> string list" where
  "consolidate_results all_results target =
     (if all_results = [] then []
      else let results = final_results all_results;
               matches = exact_pass results target
           in if matches = [] then fuzzy_pass results target else matches)"

subsection \<open>Image preprocessor\<close>

text \<open>The PIL and OpenCV operations \<open>preprocess_image\<close> calls. A PIL operation that
  raises returns \<open>Inl\<close> of the exception's message; an OpenCV operation that raises
  returns \<open>None\<close>.\<close>

record ('img, 'cv) imaging =
  pil_mode :: "'img \<Rightarrow> string"
  pil_convert :: "string \<Rightarrow> 'img \<Rightarrow> string + 'img"
  pil_contrast :: "'img \<Rightarrow> string + 'img"
  pil_sharpness :: "'img \<Rightarrow> string + 'img"
  pil_median :: "'img \<Rightarrow> string + 'img"
  cv_from_gray :: "'img \<Rightarrow> 'cv option"
  cv_binary :: "'cv \<Rightarrow> 'img option"
  cv_adaptive :: "'cv \<Rightarrow> 'img option"
  cv_morph :: "'cv \<Rightarrow> 'img option"

text \<open>The block under \<open>try\<close>: binary threshold, adaptive threshold, morphological
  closing. The first exception ends the block; the variants appended before it stay in
  the list.\<close>

definition opencv_variants :: "('img, 'cv) imaging \<Rightarrow> 'img \<Rightarrow> 'img list" where
  "opencv_variants lib gray_image =
     (case cv_from_gray lib gray_image of
        None \<Rightarrow> []
      | Some cv_image \<Rightarrow>
          (case cv_binary lib cv_image of
             None \<Rightarrow> []
           | Some binary_pil \<Rightarrow> binary_pil #
               (case cv_adaptive lib cv_image of
                  None \<Rightarrow> []
                | Some adaptive_pil \<Rightarrow> adaptive_pil #
                    (case cv_morph lib cv_image of
                       None \<Rightarrow> []
                     | Some morph_pil \<Rightarrow> [morph_pil]))))"

text \<open>\<open>preprocess_image\<close>. The five PIL steps stand outside the \<open>try\<close>: an exception
  of one of them leaves the function.\<close>

definition preprocess_image :: "('img, 'cv) imaging \<Rightarrow> 'img \<Rightarrow> string + 'img list" where
  "preprocess_image lib image0 =
     (case (if pil_mode lib image0 \<noteq> ''RGB'' then pil_convert lib ''RGB'' image0 else Inr image0) of
        Inl e \<Rightarrow> Inl e
      | Inr img \<Rightarrow>
          (case pil_convert lib ''L'' img of
             Inl e \<Rightarrow> Inl e
           | Inr gray_image \<Rightarrow>
               (case pil_contrast lib gray_image of
                  Inl e \<Rightarrow> Inl e
                | Inr contrast_image \<Rightarrow>
                    (case pil_sharpness lib contrast_image of
                       Inl e \<Rightarrow> Inl e
                     | Inr sharp_image \<Rightarrow>
                         (case pil_median lib gray_image of
                            Inl e \<Rightarrow> Inl e
                          | Inr filtered_image \<Rightarrow>
                              Inr ([img, gray_image, contrast_image, sharp_image, filtered_image]
                                   @ opencv_variants lib gray_image))))))"

subsection \<open>Text recognizers\<close>

text \<open>Tesseract: \<open>image_to_data\<close> gives the lists \<open>data['text']\<close> and \<open>data['conf']\<close>,
  \<open>image_to_string\<close> the text; both take the configuration string first.\<close>

record 'img tesseract =
  TESSERACT_AVAILABLE :: bool
  image_to_data :: "string \<Rightarrow> 'img \<Rightarrow> (string list \<times> rat list) option"
  image_to_string :: "string \<Rightarrow> 'img \<Rightarrow> string option"

definition configs :: "string list" where
  "configs = [''--psm 8 -c tessedit_char_whitelist=0123456789'',
              ''--psm 7 -c tessedit_char_whitelist=0123456789'',
              ''--psm 6 -c tessedit_char_whitelist=0123456789'',
              ''--psm 13 -c tessedit_char_whitelist=0123456789'']"

text \<open>The loop over \<open>enumerate(data['text'])\<close>, appending to \<open>results\<close>. The flag is
  False when \<open>data['conf'][i]\<close> raised IndexError; what was appended before stays.\<close>

fun data_words :: "rat list \<Rightarrow> nat \<Rightarrow> string list \<Rightarrow> detection list \<Rightarrow> detection list \<times> bool" where
  "data_words confs i [] results = (results, True)"
| "data_words confs i (w # ws) results =
     (if py_strip w \<noteq> [] \<and> py_isdigit (py_strip w) then
        (if i < length confs then
           (let confidence = confs ! i / 100
            in data_words confs (Suc i) ws
                 (if confidence_threshold < confidence then results @ [(py_strip w, confidence)]
                  else results))
         else (results, False))
      else data_words confs (Suc i) ws results)"

text \<open>The simple string extraction: digit runs of at least two digits, confidence 0.8.\<close>

definition string_numbers :: "string \<Rightarrow> detection list" where
  "string_numbers s =
     map (\<lambda>num. (num, 4 / 5)) (filter (\<lambda>num. 2 \<le> length num) (findall_digits (py_strip s)))"

text \<open>The body of \<open>for config in configs\<close>; an exception ends the configuration and the
  loop continues with the next.\<close>

definition tesseract_config :: "'img tesseract \<Rightarrow> 'img \<Rightarrow> detection list \<Rightarrow> string \<Rightarrow> detection list" where
  "tesseract_config eng img results config =
     (case image_to_data eng config img of
        None \<Rightarrow> results
      | Some (texts, confs) \<Rightarrow>
          (case data_words confs 0 texts results of
             (results1, False) \<Rightarrow> results1
           | (results1, True) \<Rightarrow>
               (case image_to_string eng config img of
                  None \<Rightarrow> results1
                | Some s \<Rightarrow> results1 @ string_numbers s)))"

definition extract_numbers_tesseract :: "'img tesseract \<Rightarrow> 'img \<Rightarrow> detection list" where
  "extract_numbers_tesseract eng img =
     (if \<not> TESSERACT_AVAILABLE eng then []
      else foldl (tesseract_config eng img) [] configs)"

text \<open>EasyOCR: \<open>self.easyocr_reader\<close> is \<open>None\<close> or a reader whose \<open>readtext\<close> gives
  the (text, confidence) of each region (the bounding box is not used).\<close>

record 'img easyocr =
  EASYOCR_AVAILABLE :: bool
  easyocr_reader :: "('img \<Rightarrow> (string \<times> rat) list option) option"

definition extract_numbers_easyocr :: "'img easyocr \<Rightarrow> 'img \<Rightarrow> detection list" where
  "extract_numbers_easyocr eo img =
     (case easyocr_reader eo of
        None \<Rightarrow> []
      | Some readtext \<Rightarrow>
          (case readtext img of
             None \<Rightarrow> []
           | Some ocr_results \<Rightarrow>
               concat (map (\<lambda>(text, confidence).
                         map (\<lambda>num. (num, confidence))
                           (filter (\<lambda>num. 2 \<le> length num \<and> confidence_threshold < confidence)
                              (findall_digits text)))
                       ocr_results)))"

subsection \<open>The service\<close>

text \<open>\<open>decode_image\<close> is \<open>base64.b64decode\<close> followed by \<open>Image.open\<close>.
  \<open>pattern_matching\<close> is \<open>extract_numbers_pattern_matching\<close>, which draws its digits
  from \<open>np.random\<close>, and \<open>random_sample n k\<close> is \<open>random.sample(range(n), k)\<close>: both
  read and advance the state of the random generators, of type \<open>'rng\<close>.\<close>

record ('img, 'cv, 'rng) service =
  imaging :: "('img, 'cv) imaging"
  tesseract :: "'img tesseract"
  easyocr :: "'img easyocr"
  decode_image :: "string \<Rightarrow> 'img option"
  pattern_matching :: "'img \<Rightarrow> 'rng \<Rightarrow> detection list \<times> 'rng"
  random_sample :: "nat \<Rightarrow> nat \<Rightarrow> 'rng \<Rightarrow> nat list \<times> 'rng"

text \<open>The values of the dictionaries the service returns.\<close>

datatype pyval = PStr string | PInt nat | PBool bool | PStrs "string list" | PInts "nat list"

type_synonym pydict = "(string \<times> pyval) list"

definition py_get :: "pydict \<Rightarrow> string \<Rightarrow> pyval option" where
  "py_get d k = map_of d k"

text \<open>Truth value of \<open>d.get(k)\<close>; a missing key gives \<open>None\<close>, which is false.\<close>

fun truthy :: "pyval option \<Rightarrow> bool" where
  "truthy None = False"
| "truthy (Some (PStr s)) = (s \<noteq> [])"
| "truthy (Some (PInt n)) = (n \<noteq> 0)"
| "truthy (Some (PBool b)) = b"
| "truthy (Some (PStrs xs)) = (xs \<noteq> [])"
| "truthy (Some (PInts xs)) = (xs \<noteq> [])"

text \<open>The loop over the processed variants in \<open>enhanced_ocr_process\<close>, pooling the
  results of the three methods.\<close>

fun recognise_variants :: "('img, 'cv, 'rng) service \<Rightarrow> 'img list \<Rightarrow> 'rng \<Rightarrow> detection list \<times> 'rng" where
  "recognise_variants svc [] g = ([], g)"
| "recognise_variants svc (proc_img # imgs) g =
     (let tesseract_results =
            (if TESSERACT_AVAILABLE (tesseract svc)
             then extract_numbers_tesseract (tesseract svc) proc_img else []);
          easyocr_results =
            (if EASYOCR_AVAILABLE (easyocr svc)
             then extract_numbers_easyocr (easyocr svc) proc_img else []);
          (pattern_results, g1) = pattern_matching svc proc_img g;
          (rest, g2) = recognise_variants svc imgs g1
      in (tesseract_results @ easyocr_results @ pattern_results @ rest, g2))"

definition enhanced_ocr_process ::
  "('img, 'cv, 'rng) service \<Rightarrow> string \<Rightarrow> string \<Rightarrow> 'rng \<Rightarrow> pydict \<times> 'rng" where
  "enhanced_ocr_process svc base64_image target g =
     (case decode_image svc base64_image of
        None \<Rightarrow> ([(''success'', PBool False), (''error'', PStr ''Image decode failed'')], g)
      | Some img \<Rightarrow>
          (case preprocess_image (imaging svc) img of
             Inl e \<Rightarrow> ([(''success'', PBool False), (''error'', PStr e)], g)
           | Inr processed_images \<Rightarrow>
               (let (all_results, g1) = recognise_variants svc processed_images g;
                    matches = consolidate_results all_results target;
                    success = (0 < length matches)
                in ([(''success'', PBool success),
                     (''target'', PStr target),
                     (''matches'', PStrs matches),
                     (''confidence'', PStr (if success then ''high'' else ''low'')),
                     (''total_detections'', PInt (length all_results)),
                     (''processing_methods'', PStrs [''tesseract'', ''easyocr'', ''pattern_matching''])],
                    g1))))"

subsection \<open>Tile batch orchestrator\<close>

text \<open>A tile is a dictionary; only its entry \<open>base64Image\<close> is read.\<close>

type_synonym tile = "string \<rightharpoonup> string"

text \<open>The entries \<open>process_captcha_tiles\<close> logs at step CAPTCHA\_PROCESSING: the start,
  a matching tile, the fallback warning, the fallback's selection, the completion.\<close>

datatype log_entry =
    Processing nat string
  | TileMatches nat string
  | NoMatchesFallback
  | FallbackSelected "nat list"
  | Completed nat

record 'rng batch =
  matching_indices :: "nat list"
  processed_count :: nat
  log_entries :: "log_entry list"
  rng :: 'rng

text \<open>The body of \<open>for idx, tile in enumerate(tiles)\<close>. \<open>enhanced_ocr_process\<close>
  returns a dictionary on every path and \<open>tile.get\<close> does not raise on a dictionary, so
  the handler of the inner \<open>try\<close> is not reached.\<close>

definition tile_step ::
  "('img, 'cv, 'rng) service \<Rightarrow> string \<Rightarrow> nat \<Rightarrow> tile \<Rightarrow> 'rng batch \<Rightarrow> 'rng batch" where
  "tile_step svc target idx tile st =
     (case tile ''base64Image'' of
        None \<Rightarrow> st
      | Some base64_image \<Rightarrow>
          if base64_image = [] then st
          else
            (let (result, g) = enhanced_ocr_process svc base64_image target (rng st);
                 st1 = st\<lparr>processed_count := processed_count st + 1, rng := g\<rparr>
             in if truthy (py_get result ''success'') \<and> truthy (py_get result ''matches'')
                then st1\<lparr>matching_indices := matching_indices st1 @ [idx],
                         log_entries := log_entries st1 @ [TileMatches idx target]\<rparr>
                else st1))"

fun tiles_loop ::
  "('img, 'cv, 'rng) service \<Rightarrow> string \<Rightarrow> nat \<Rightarrow> tile list \<Rightarrow> 'rng batch \<Rightarrow> 'rng batch" where
  "tiles_loop svc target idx [] st = st"
| "tiles_loop svc target idx (tile # tiles) st =
     tiles_loop svc target (Suc idx) tiles (tile_step svc target idx tile st)"

text \<open>The state after the loop, and the fallback that follows it.\<close>

definition after_loop :: "('img, 'cv, 'rng) service \<Rightarrow> tile list \<Rightarrow> string \<Rightarrow> 'rng \<Rightarrow> 'rng batch" where
  "after_loop svc tiles target g =
     tiles_loop svc target 0 tiles
       \<lparr>matching_indices = [], processed_count = 0,
        log_entries = [Processing (length tiles) target], rng = g\<rparr>"

definition fallback :: "('img, 'cv, 'rng) service \<Rightarrow> tile list \<Rightarrow> 'rng batch \<Rightarrow> 'rng batch" where
  "fallback svc tiles st =
     (if matching_indices st = [] \<and> 0 < processed_count st then
        (let num_fallback = min 3 (length tiles);
             (picked, g) = random_sample svc (length tiles) num_fallback (rng st)
         in st\<lparr>matching_indices := picked,
               log_entries := log_entries st @ [NoMatchesFallback, FallbackSelected picked],
               rng := g\<rparr>)
      else st)"

text \<open>\<open>process_captcha_tiles\<close>: the returned dictionary and the final state (log and
  random generators). Nothing inside the outer \<open>try\<close> raises here, so its handler,
  which returns a dictionary with an \<open>error\<close> entry, is not reached.\<close>

definition process_captcha_tiles ::
  "('img, 'cv, 'rng) service \<Rightarrow> tile list \<Rightarrow> string \<Rightarrow> 'rng \<Rightarrow> pydict \<times> 'rng batch" where
  "process_captcha_tiles svc tiles target g =
     (let st = fallback svc tiles (after_loop svc tiles target g);
          result = [(''target'', PStr target),
                    (''matching_indices'', PInts (matching_indices st)),
                    (''processed_tiles'', PInt (processed_count st)),
                    (''total_tiles'', PInt (length tiles)),
                    (''success'', PBool (0 < length (matching_indices st))),
                    (''method'', PStr ''enhanced_ocr'')]
      in (result, st\<lparr>log_entries := log_entries st @ [Completed (length (matching_indices st))]\<rparr>))"

text \<open>The contract of \<open>random.sample(range(n), k)\<close> for \<open>k \<le> n\<close>: \<open>k\<close> distinct
  elements of the range, in the order they were drawn.\<close>

definition sample_contract :: "('img, 'cv, 'rng) service \<Rightarrow> bool" where
  "sample_contract svc \<longleftrightarrow>
     (\<forall>n k g. k \<le> n \<longrightarrow>
        length (fst (random_sample svc n k g)) = k \<and>
        distinct (fst (random_sample svc n k g)) \<and>
        (\<forall>i \<in> set (fst (random_sample svc n k g)). i < n))"

text \<open>Whether a tile carries a payload, that is, whether the loop does not skip it.\<close>

definition has_payload :: "tile \<Rightarrow> bool" where
  "has_payload tile \<longleftrightarrow> (case tile ''base64Image'' of None \<Rightarrow> False | Some b \<Rightarrow> b \<noteq> [])"

text \<open>The detections pooled for one tile, when the tile carries a payload that decodes
  and preprocesses; \<open>None\<close> otherwise.\<close>

definition tile_detections :: "('img, 'cv, 'rng) service \<Rightarrow> tile \<Rightarrow> 'rng \<Rightarrow> detection list option" where
  "tile_detections svc tile g =
     (case tile ''base64Image'' of
        None \<Rightarrow> None
      | Some b \<Rightarrow>
          if b = [] then None
          else (case decode_image svc b of
                  None \<Rightarrow> None
                | Some img \<Rightarrow>
                    (case preprocess_image (imaging svc) img of
                       Inl e \<Rightarrow> None
                     | Inr processed_images \<Rightarrow> Some (fst (recognise_variants svc processed_images g)))))"

subsection \<open>Fixtures\<close>

text \<open>A Tesseract engine that, in its single-word mode, reads the words \<open>7\<close>, \<open>12\<close>
  and a blank with confidences 95, 30 and 99 and the text \<open>45 6\<close>; its other modes
  raise.\<close>

definition demo_tesseract :: "unit tesseract" where
  "demo_tesseract =
     \<lparr>TESSERACT_AVAILABLE = True,
      image_to_data = (\<lambda>config img.
         if config = ''--psm 8 -c tessedit_char_whitelist=0123456789''
         then Some ([''7'', ''12'', '' ''], [95, 30, 99]) else None),
      image_to_string = (\<lambda>config img. Some ''45 6'')\<rparr>"

text \<open>An imaging library over images named by strings: every PIL step succeeds except
  the grayscale conversion of the image \<open>truncated\<close>; OpenCV always raises.\<close>

definition demo_imaging :: "(string, unit) imaging" where
  "demo_imaging =
     \<lparr>pil_mode = (\<lambda>img. ''RGB''),
      pil_convert = (\<lambda>mode img.
         if img = ''truncated'' then Inl ''image file is truncated'' else Inr img),
      pil_contrast = Inr,
      pil_sharpness = Inr,
      pil_median = Inr,
      cv_from_gray = (\<lambda>img. None),
      cv_binary = (\<lambda>a. None),
      cv_adaptive = (\<lambda>a. None),
      cv_morph = (\<lambda>a. None)\<rparr>"

text \<open>A service over images named by strings. The payload \<open>corrupt\<close> does not decode;
  every other payload decodes to the image of that name. Tesseract is not installed;
  EasyOCR reads in an image the text of its name with confidence 0.9; the pattern
  matching finds nothing; \<open>random.sample\<close> draws the last \<open>k\<close> indices, highest first.\<close>

definition demo_service :: "(string, unit, unit) service" where
  "demo_service =
     \<lparr>imaging = demo_imaging,
      tesseract = \<lparr>TESSERACT_AVAILABLE = False,
                   image_to_data = (\<lambda>config img. None),
                   image_to_string = (\<lambda>config img. None)\<rparr>,
      easyocr = \<lparr>EASYOCR_AVAILABLE = True,
                 easyocr_reader = Some (\<lambda>img. Some [(img, 9 / 10)])\<rparr>,
      decode_image = (\<lambda>b. if b = ''corrupt'' then None else Some b),
      pattern_matching = (\<lambda>img g. ([], g)),
      random_sample = (\<lambda>n k g. (rev [n - k..<n], g))\<rparr>"

text \<open>A tile whose payload is the given string.\<close>

definition demo_tile :: "string \<Rightarrow> tile" where
  "demo_tile b = [''base64Image'' \<mapsto> b]"

section \<open>Properties\<close>

subsection \<open>Consolidator\<close>

lemma py_in_sublist: "py_in sub s \<longleftrightarrow> sublist sub s"
  by (induction s) (auto simp: sublist_Cons_right)

lemma group_add_keys: "fst ` set (group_add groups t c) = insert t (fst ` set groups)"
  by (induction groups t c rule: group_add.induct) auto

lemma group_add_distinct:
  "distinct (map fst groups) \<Longrightarrow> distinct (map fst (group_add groups t c))"
  by (induction groups t c rule: group_add.induct) (auto simp: group_add_keys)

lemma foldl_group_add_keys:
  "fst ` set (foldl (\<lambda>groups (t, c). group_add groups t c) acc rs) = fst ` set acc \<union> fst ` set rs"
proof (induction rs arbitrary: acc)
  case Nil
  then show ?case by simp
next
  case (Cons r rs)
  obtain t c where r: "r = (t, c)" by (cases r)
  show ?case
    by (auto simp: r Cons.IH group_add_keys)
qed

lemma foldl_group_add_distinct:
  "distinct (map fst acc) \<Longrightarrow>
   distinct (map fst (foldl (\<lambda>groups (t, c). group_add groups t c) acc rs))"
  by (induction rs arbitrary: acc) (auto simp: group_add_distinct split: prod.splits)

lemma text_groups_keys: "fst ` set (text_groups rs) = fst ` set rs"
  by (simp add: text_groups_def foldl_group_add_keys)

lemma text_groups_distinct: "distinct (map fst (text_groups rs))"
  by (simp add: text_groups_def foldl_group_add_distinct)

lemma final_results_texts: "fst ` set (final_results rs) = fst ` set rs"
proof -
  have "fst ` set (final_results rs) = fst ` set (text_groups rs)"
    by (force simp: final_results_def)
  then show ?thesis by (simp add: text_groups_keys)
qed

lemma map_fst_avg: "map fst (map (\<lambda>(t, cs). (t, avg_confidence cs)) gs) = map fst gs"
  by (induction gs) auto

lemma distinct_map_sort_key: "distinct (map f (sort_key k xs)) = distinct (map f xs)"
  by (simp add: distinct_map)

lemma final_results_distinct: "distinct (map fst (final_results rs))"
proof -
  let ?xs = "map (\<lambda>(t, cs). (t, avg_confidence cs)) (text_groups rs)"
  have "map fst ?xs = map fst (text_groups rs)" by (rule map_fst_avg)
  then have "distinct (map fst ?xs)" by (simp only: text_groups_distinct)
  then show ?thesis by (simp only: final_results_def distinct_map_sort_key)
qed

lemma set_exact_pass:
  "set (exact_pass results target) = {t \<in> fst ` set results. text_matches_target t target}"
  by (force simp: exact_pass_def)

lemma set_fuzzy_pass:
  "set (fuzzy_pass results target) = {t \<in> fst ` set results. fuzzy_match t target}"
  by (force simp: fuzzy_pass_def)

lemma distinct_map_fst_filter: "distinct (map fst xs) \<Longrightarrow> distinct (map fst (filter P xs))"
  by (induction xs) auto

lemma consolidate_results_passes:
  "consolidate_results rs target =
     (if exact_pass (final_results rs) target = [] then fuzzy_pass (final_results rs) target
      else exact_pass (final_results rs) target)"
  by (simp add: consolidate_results_def Let_def final_results_def text_groups_def
      exact_pass_def fuzzy_pass_def)

lemma set_consolidate_results:
  "set (consolidate_results rs target) =
     (if {t \<in> fst ` set rs. text_matches_target t target} = {}
      then {t \<in> fst ` set rs. fuzzy_match t target}
      else {t \<in> fst ` set rs. text_matches_target t target})"
proof -
  have e: "exact_pass (final_results rs) target = [] \<longleftrightarrow>
           {t \<in> fst ` set rs. text_matches_target t target} = {}"
    using set_exact_pass [of "final_results rs" target]
    by (simp only: final_results_texts set_empty [symmetric])
  show ?thesis
    by (simp add: consolidate_results_passes e set_exact_pass set_fuzzy_pass final_results_texts)
qed

lemma distinct_consolidate_results: "distinct (consolidate_results rs target)"
  by (simp add: consolidate_results_passes exact_pass_def fuzzy_pass_def
      distinct_map_fst_filter final_results_distinct)

lemma empty_target_matches: "text_matches_target t []"
  by (cases t) (simp_all add: text_matches_target_def)

lemma exact_pass_empty_target: "exact_pass results [] = map fst results"
  by (induction results) (auto simp: exact_pass_def empty_target_matches)

lemma final_results_nonempty: "rs \<noteq> [] \<Longrightarrow> final_results rs \<noteq> []"
proof -
  assume "rs \<noteq> []"
  then have "fst ` set rs \<noteq> {}" by simp
  then have "fst ` set (final_results rs) \<noteq> {}" using final_results_texts [of rs] by simp
  then show ?thesis by auto
qed

text \<open>C6: at the threshold 0.8, two strings of length 4 that differ in exactly one
  character (similarity 0.75) do not fuzzy-match; two strings of equal length that differ
  in no character do; two strings of different lengths never do; and the fuzzy pass is
  attempted only when the first pass produced no match: \<open>consolidate_results\<close> returns
  the matches of the first pass whenever there is one. The strings \<open>_fuzzy_match\<close>
  compares are not empty: an empty target matches every text in the first pass, so the
  fuzzy pass never runs on it.\<close>

theorem fuzzy_match_boundary:
  "(length x = 4 \<and> length y = 4 \<and> differences x y = 1
      \<longrightarrow> \<not> fuzzy_match x y)
   \<and> (length a = length b \<and> b \<noteq> [] \<and> differences a b = 0 \<longrightarrow> fuzzy_match a b)
   \<and> (length u \<noteq> length v \<longrightarrow> \<not> fuzzy_match u v)
   \<and> consolidate_results rs tgt =
       (if exact_pass (final_results rs) tgt = [] then fuzzy_pass (final_results rs) tgt
        else exact_pass (final_results rs) tgt)
   \<and> (ds \<noteq> [] \<longrightarrow> exact_pass (final_results ds) [] \<noteq> [])
   \<and> consolidate_results ds [] = map fst (final_results ds)"
proof (intro conjI impI)
  assume "length x = 4 \<and> length y = 4 \<and> differences x y = 1"
  then show "\<not> fuzzy_match x y"
    by (simp add: fuzzy_match_def similarity_threshold_def)
next
  assume "length a = length b \<and> b \<noteq> [] \<and> differences a b = 0"
  then show "fuzzy_match a b"
    by (simp add: fuzzy_match_def similarity_threshold_def)
next
  assume "length u \<noteq> length v"
  then show "\<not> fuzzy_match u v"
    by (simp add: fuzzy_match_def)
next
  show "consolidate_results rs tgt =
       (if exact_pass (final_results rs) tgt = [] then fuzzy_pass (final_results rs) tgt
        else exact_pass (final_results rs) tgt)"
    by (rule consolidate_results_passes)
next
  assume "ds \<noteq> []"
  then show "exact_pass (final_results ds) [] \<noteq> []"
    by (simp add: exact_pass_empty_target final_results_nonempty)
next
  show "consolidate_results ds [] = map fst (final_results ds)"
    by (simp add: consolidate_results_passes exact_pass_empty_target fuzzy_pass_def)
qed

theorem fuzzy_match_boundary_witness:
  "\<not> fuzzy_match ''1234'' ''1235'' \<and> fuzzy_match ''1234'' ''1234''
   \<and> \<not> fuzzy_match ''12'' ''123''
   \<and> consolidate_results [(''47'', 1 / 2), (''48'', 9 / 10)] ''47'' = [''47'']
   \<and> consolidate_results [(''47'', 1 / 2), (''48'', 9 / 10)] [] = [''48'', ''47'']"
  using fuzzy_match_boundary [where x = "''1234''" and y = "''1235''"
      and a = "''1234''" and b = "''1234''" and u = "''12''" and v = "''123''"
      and rs = "[(''47'', 1 / 2), (''48'', 9 / 10)]" and tgt = "''47''"
      and ds = "[(''47'', 1 / 2), (''48'', 9 / 10)]"]
  by (simp add: differences_def final_results_def text_groups_def avg_confidence_def
      exact_pass_def text_matches_target_def)

text \<open>C9: the set of texts \<open>consolidate_results\<close> returns depends only on the set of
  detected texts and the target. Two detection lists with the same texts, whatever their
  confidences, give the same set of matches, each returned once: the confidences decide
  the order of the list only.\<close>

theorem consolidate_results_confidence_independent:
  assumes "fst ` set a = fst ` set b"
  shows "set (consolidate_results a target) = set (consolidate_results b target)
         \<and> distinct (consolidate_results a target) \<and> distinct (consolidate_results b target)"
  using assms by (simp add: set_consolidate_results distinct_consolidate_results)

theorem consolidate_results_confidence_independent_witness:
  "fst ` set [(''47'', 1 / 2), (''74'', 9 / 10 :: rat)]
     = fst ` set [(''74'', 1 / 10), (''47'', 1), (''47'', 3 / 10 :: rat)]
   \<and> set (consolidate_results [(''47'', 1 / 2), (''74'', 9 / 10)] ''47'')
     = set (consolidate_results [(''74'', 1 / 10), (''47'', 1), (''47'', 3 / 10)] ''47'')
   \<and> consolidate_results [(''47'', 1 / 2), (''74'', 9 / 10)] ''47'' = [''74'', ''47'']
   \<and> consolidate_results [(''74'', 1 / 10), (''47'', 1), (''47'', 3 / 10)] ''47'' = [''47'', ''74'']"
proof -
  have h: "fst ` set [(''47'', 1 / 2), (''74'', 9 / 10 :: rat)]
     = fst ` set [(''74'', 1 / 10), (''47'', 1), (''47'', 3 / 10 :: rat)]"
    by auto
  have l: "consolidate_results [(''47'', 1 / 2), (''74'', 9 / 10)] ''47'' = [''74'', ''47'']"
    by (simp add: consolidate_results_def final_results_def text_groups_def avg_confidence_def
        exact_pass_def text_matches_target_def)
  have r: "consolidate_results [(''74'', 1 / 10), (''47'', 1), (''47'', 3 / 10)] ''47'' = [''47'', ''74'']"
    by (simp add: consolidate_results_def final_results_def text_groups_def avg_confidence_def
        exact_pass_def text_matches_target_def)
  from consolidate_results_confidence_independent [OF h, of "''47''"] h l r
  show ?thesis by simp
qed

subsection \<open>Tesseract recognizer\<close>

lemma digit_runs_decimal:
  "\<forall>ch \<in> set cur. is_decimal ch \<Longrightarrow> r \<in> set (digit_runs cur s) \<Longrightarrow>
   r \<noteq> [] \<and> (\<forall>ch \<in> set r. is_decimal ch)"
proof (induction s arbitrary: cur)
  case Nil
  then show ?case by (auto split: if_splits)
next
  case (Cons c cs)
  show ?case
  proof (cases "is_decimal c")
    case True
    then have "\<forall>ch \<in> set (cur @ [c]). is_decimal ch" using Cons.prems(1) by simp
    moreover have "r \<in> set (digit_runs (cur @ [c]) cs)" using Cons.prems(2) True by simp
    ultimately show ?thesis by (rule Cons.IH)
  next
    case False
    then have "r \<in> set (if cur = [] then [] else [cur]) \<or> r \<in> set (digit_runs [] cs)"
      using Cons.prems(2) by simp
    then show ?thesis
    proof
      assume "r \<in> set (if cur = [] then [] else [cur])"
      then show ?thesis using Cons.prems(1) by (simp split: if_splits)
    next
      assume "r \<in> set (digit_runs [] cs)"
      then show ?thesis using Cons.IH [of "[]"] by simp
    qed
  qed
qed

lemma findall_digits_decimal:
  "r \<in> set (findall_digits s) \<Longrightarrow> r \<noteq> [] \<and> (\<forall>ch \<in> set r. is_decimal ch)"
  unfolding findall_digits_def using digit_runs_decimal [of "[]" r s] by simp

lemma string_numbers_shape:
  "(t, c) \<in> set (string_numbers s) \<Longrightarrow> 2 \<le> length t \<and> c = 4 / 5 \<and> (\<forall>ch \<in> set t. is_decimal ch)"
  using findall_digits_decimal [of t "py_strip s"] by (auto simp: string_numbers_def)

lemma data_words_invariant:
  assumes "\<forall>x \<in> set results. P x"
    and "\<And>w c. py_isdigit w \<Longrightarrow> confidence_threshold < c \<Longrightarrow> P (w, c)"
  shows "\<forall>x \<in> set (fst (data_words confs i ws results)). P x"
  using assms(1)
proof (induction ws arbitrary: i results)
  case Nil
  then show ?case by simp
next
  case (Cons w ws)
  show ?case
  proof (cases "py_strip w \<noteq> [] \<and> py_isdigit (py_strip w)")
    case False
    then have "data_words confs i (w # ws) results = data_words confs (Suc i) ws results"
      by auto
    then show ?thesis using Cons.IH [OF Cons.prems] by simp
  next
    case True
    show ?thesis
    proof (cases "i < length confs")
      case False
      then have "data_words confs i (w # ws) results = (results, False)"
        using True by simp
      then show ?thesis using Cons.prems by simp
    next
      case inb: True
      let ?c = "confs ! i / 100"
      let ?r = "if confidence_threshold < ?c then results @ [(py_strip w, ?c)] else results"
      have "\<forall>x \<in> set ?r. P x"
        using Cons.prems assms(2) [of "py_strip w" ?c] True by auto
      then have "\<forall>x \<in> set (fst (data_words confs (Suc i) ws ?r)). P x"
        by (rule Cons.IH)
      moreover have "data_words confs i (w # ws) results = data_words confs (Suc i) ws ?r"
        using True inb by (simp add: Let_def)
      ultimately show ?thesis by simp
    qed
  qed
qed

lemma tesseract_config_invariant:
  assumes "\<forall>x \<in> set results. P x"
    and "\<And>w c. py_isdigit w \<Longrightarrow> confidence_threshold < c \<Longrightarrow> P (w, c)"
    and "\<And>s x. x \<in> set (string_numbers s) \<Longrightarrow> P x"
  shows "\<forall>x \<in> set (tesseract_config eng img results config). P x"
proof (cases "image_to_data eng config img")
  case None
  then show ?thesis using assms(1) by (simp add: tesseract_config_def)
next
  case (Some d)
  obtain texts confs where d: "d = (texts, confs)" by (cases d)
  obtain results1 ok where w: "data_words confs 0 texts results = (results1, ok)"
    by (cases "data_words confs 0 texts results")
  have r1: "\<forall>x \<in> set results1. P x"
    using data_words_invariant [of results P confs 0 texts] assms(1,2) w by simp
  show ?thesis
  proof (cases ok)
    case False
    then show ?thesis using Some d w r1 by (simp add: tesseract_config_def)
  next
    case True
    show ?thesis
    proof (cases "image_to_string eng config img")
      case None
      then show ?thesis using Some d w r1 True by (simp add: tesseract_config_def)
    next
      case (Some s)
      then have "tesseract_config eng img results config = results1 @ string_numbers s"
        using \<open>image_to_data eng config img = Some d\<close> d w True by (simp add: tesseract_config_def)
      then show ?thesis using r1 assms(3) [of _ s] by auto
    qed
  qed
qed

lemma foldl_tesseract_config_invariant:
  assumes "\<forall>x \<in> set results. P x"
    and "\<And>w c. py_isdigit w \<Longrightarrow> confidence_threshold < c \<Longrightarrow> P (w, c)"
    and "\<And>s x. x \<in> set (string_numbers s) \<Longrightarrow> P x"
  shows "\<forall>x \<in> set (foldl (tesseract_config eng img) results cs). P x"
  using assms(1)
proof (induction cs arbitrary: results)
  case Nil
  then show ?case by simp
next
  case (Cons c cs)
  have "\<forall>x \<in> set (tesseract_config eng img results c). P x"
    by (rule tesseract_config_invariant [OF Cons.prems assms(2,3)])
  then show ?case using Cons.IH by simp
qed

text \<open>C7, as stated, fails: a word the engine reports through \<open>image_to_data\<close> is
  returned whatever its length. Here the one-digit word \<open>7\<close>, read with confidence 95,
  is in the result.\<close>

theorem tesseract_single_digit_counterexample:
  "(''7'', 19 / 20) \<in> set (extract_numbers_tesseract demo_tesseract ()) \<and> length ''7'' < 2"
  by (simp add: extract_numbers_tesseract_def demo_tesseract_def configs_def
      tesseract_config_def py_strip_def py_isspace_def py_isdigit_def is_decimal_def
      confidence_threshold_def string_numbers_def findall_digits_def)

text \<open>C7 (amended): every digit run taken from the text of \<open>image_to_string\<close> has at
  least 2 digits and confidence 0.8; every detection \<open>extract_numbers_tesseract\<close> returns
  is either such a run or a word of \<open>image_to_data\<close>, which is a non-empty digit string
  (of any length, one digit included) whose engine confidence exceeds the threshold 0.5.\<close>

theorem tesseract_results_shape:
  "(\<forall>(t, c) \<in> set (string_numbers s). 2 \<le> length t \<and> c = 4 / 5)
   \<and> (\<forall>(t, c) \<in> set (extract_numbers_tesseract eng img).
        (2 \<le> length t \<and> c = 4 / 5 \<and> (\<forall>ch \<in> set t. is_decimal ch))
        \<or> (py_isdigit t \<and> confidence_threshold < c))"
proof
  show "\<forall>(t, c) \<in> set (string_numbers s). 2 \<le> length t \<and> c = 4 / 5"
    using string_numbers_shape by blast
next
  let ?P = "\<lambda>(t, c). (2 \<le> length t \<and> c = 4 / 5 \<and> (\<forall>ch \<in> set t. is_decimal ch))
        \<or> (py_isdigit t \<and> confidence_threshold < c)"
  have "\<forall>x \<in> set (foldl (tesseract_config eng img) [] configs). ?P x"
  proof (rule foldl_tesseract_config_invariant)
    show "\<forall>x \<in> set []. ?P x" by simp
  next
    fix w c assume "py_isdigit w" "confidence_threshold < c"
    then show "?P (w, c)" by simp
  next
    fix s x assume a: "x \<in> set (string_numbers s)"
    obtain t c where x: "x = (t, c)" by (cases x)
    from a x string_numbers_shape [of t c s] show "?P x" by simp
  qed
  then show "\<forall>(t, c) \<in> set (extract_numbers_tesseract eng img).
        (2 \<le> length t \<and> c = 4 / 5 \<and> (\<forall>ch \<in> set t. is_decimal ch))
        \<or> (py_isdigit t \<and> confidence_threshold < c)"
    by (simp add: extract_numbers_tesseract_def)
qed

theorem tesseract_results_shape_witness:
  "extract_numbers_tesseract demo_tesseract () = [(''7'', 19 / 20), (''45'', 4 / 5)]
   \<and> string_numbers ''45 6'' = [(''45'', 4 / 5)]
   \<and> py_isdigit ''7'' \<and> confidence_threshold < 19 / 20"
proof -
  have e: "extract_numbers_tesseract demo_tesseract () = [(''7'', 19 / 20), (''45'', 4 / 5)]"
    by (simp add: extract_numbers_tesseract_def demo_tesseract_def configs_def
        tesseract_config_def py_strip_def py_isspace_def py_isdigit_def is_decimal_def
        confidence_threshold_def string_numbers_def findall_digits_def)
  have s: "string_numbers ''45 6'' = [(''45'', 4 / 5)]"
    by (simp add: py_strip_def py_isspace_def is_decimal_def string_numbers_def findall_digits_def)
  from tesseract_results_shape [of "''45 6''" demo_tesseract "()"] e s
  show ?thesis by (simp add: is_decimal_def)
qed

subsection \<open>Image preprocessor\<close>


subsection \<open>Tile batch orchestrator\<close>

lemma tile_step_skip: "\<not> has_payload tile \<Longrightarrow> tile_step svc target idx tile st = st"
  by (auto simp: tile_step_def has_payload_def split: option.splits)

lemma tile_step_processed_count:
  "processed_count (tile_step svc target idx tile st) = processed_count st + (if has_payload tile then 1 else 0)"
  by (auto simp: tile_step_def has_payload_def Let_def split: option.splits prod.splits)

lemma tiles_loop_processed_count:
  "processed_count (tiles_loop svc target idx tiles st) = processed_count st + length (filter has_payload tiles)"
  by (induction tiles arbitrary: idx st) (simp_all add: tile_step_processed_count)

lemma tile_step_matching:
  "matching_indices (tile_step svc target idx tile st) = matching_indices st
   \<or> matching_indices (tile_step svc target idx tile st) = matching_indices st @ [idx] \<and> has_payload tile"
  by (auto simp: tile_step_def has_payload_def Let_def split: option.splits prod.splits)

lemma tiles_loop_ascending:
  "sorted_wrt (<) (matching_indices st) \<Longrightarrow> \<forall>i \<in> set (matching_indices st). i < idx \<Longrightarrow>
   sorted_wrt (<) (matching_indices (tiles_loop svc target idx tiles st))
   \<and> (\<forall>i \<in> set (matching_indices (tiles_loop svc target idx tiles st)). i < idx + length tiles)"
proof (induction tiles arbitrary: idx st)
  case Nil
  then show ?case by simp
next
  case (Cons tile tiles)
  let ?st = "tile_step svc target idx tile st"
  have "sorted_wrt (<) (matching_indices ?st) \<and> (\<forall>i \<in> set (matching_indices ?st). i < Suc idx)"
    using tile_step_matching [of svc target idx tile st] Cons.prems
    by (auto simp: sorted_wrt_append less_Suc_eq)
  then show ?case using Cons.IH [where idx = "Suc idx" and st = ?st] by simp
qed

lemma tile_step_log:
  "NoMatchesFallback \<in> set (log_entries (tile_step svc target idx tile st)) \<longleftrightarrow> NoMatchesFallback \<in> set (log_entries st)"
  by (auto simp: tile_step_def Let_def split: option.splits prod.splits)

lemma tiles_loop_log:
  "NoMatchesFallback \<in> set (log_entries (tiles_loop svc target idx tiles st)) \<longleftrightarrow> NoMatchesFallback \<in> set (log_entries st)"
  by (induction tiles arbitrary: idx st) (simp_all add: tile_step_log)

lemma tiles_loop_matching_payload:
  "i \<in> set (matching_indices (tiles_loop svc target idx tiles st)) \<Longrightarrow>
   i \<in> set (matching_indices st) \<or> (idx \<le> i \<and> i < idx + length tiles \<and> has_payload (tiles ! (i - idx)))"
proof (induction tiles arbitrary: idx st)
  case Nil
  then show ?case by simp
next
  case (Cons tile tiles)
  let ?st = "tile_step svc target idx tile st"
  from Cons.IH [where idx = "Suc idx" and st = ?st] Cons.prems
  consider "i \<in> set (matching_indices ?st)"
    | "Suc idx \<le> i" "i < Suc idx + length tiles" "has_payload (tiles ! (i - Suc idx))"
    by auto
  then show ?case
  proof cases
    case 1
    then show ?thesis using tile_step_matching [of svc target idx tile st] by auto
  next
    case 2
    then have "(tile # tiles) ! (i - idx) = tiles ! (i - Suc idx)"
      by (simp add: nth_Cons')
    with 2 show ?thesis by simp
  qed
qed

lemma after_loop_processed_count:
  "processed_count (after_loop svc tiles target g) = length (filter has_payload tiles)"
  by (simp add: after_loop_def tiles_loop_processed_count)

lemma after_loop_ascending:
  "sorted_wrt (<) (matching_indices (after_loop svc tiles target g))
   \<and> (\<forall>i \<in> set (matching_indices (after_loop svc tiles target g)). i < length tiles)"
  using tiles_loop_ascending [of "\<lparr>matching_indices = [], processed_count = 0,
        log_entries = [Processing (length tiles) target], rng = g\<rparr>" 0 svc target tiles]
  by (simp add: after_loop_def)

lemma after_loop_log:
  "NoMatchesFallback \<notin> set (log_entries (after_loop svc tiles target g))"
  by (simp add: after_loop_def tiles_loop_log)

lemma after_loop_matching_payload:
  "i \<in> set (matching_indices (after_loop svc tiles target g)) \<Longrightarrow>
   i < length tiles \<and> has_payload (tiles ! i)"
  using tiles_loop_matching_payload [of i svc target 0 tiles "\<lparr>matching_indices = [], processed_count = 0,
        log_entries = [Processing (length tiles) target], rng = g\<rparr>"]
  by (simp add: after_loop_def)

lemma after_loop_none_processed:
  assumes "processed_count (after_loop svc tiles target g) = 0"
  shows "matching_indices (after_loop svc tiles target g) = []"
proof (rule ccontr)
  assume "matching_indices (after_loop svc tiles target g) \<noteq> []"
  then have "hd (matching_indices (after_loop svc tiles target g))
      \<in> set (matching_indices (after_loop svc tiles target g))"
    by simp
  then obtain i where "i \<in> set (matching_indices (after_loop svc tiles target g))" ..
  then have "i < length tiles \<and> has_payload (tiles ! i)"
    by (rule after_loop_matching_payload)
  then have "tiles ! i \<in> set (filter has_payload tiles)" by simp
  then have "0 < length (filter has_payload tiles)" by (rule length_pos_if_in_set)
  with assms show False by (simp add: after_loop_processed_count)
qed

lemma fallback_log:
  "NoMatchesFallback \<in> set (log_entries (fallback svc tiles st)) \<longleftrightarrow>
   NoMatchesFallback \<in> set (log_entries st) \<or> (matching_indices st = [] \<and> 0 < processed_count st)"
  by (auto simp: fallback_def Let_def split: prod.splits)

lemma fallback_matching:
  "matching_indices (fallback svc tiles st) =
     (if matching_indices st = [] \<and> 0 < processed_count st
      then fst (random_sample svc (length tiles) (min 3 (length tiles)) (rng st))
      else matching_indices st)"
  by (auto simp: fallback_def Let_def split: prod.splits)

lemma fallback_processed_count:
  "processed_count (fallback svc tiles st) = processed_count st"
  by (auto simp: fallback_def Let_def split: prod.splits)

lemma response_matching:
  "py_get (fst (process_captcha_tiles svc tiles target g)) ''matching_indices''
     = Some (PInts (matching_indices (fallback svc tiles (after_loop svc tiles target g))))"
  by (simp add: process_captcha_tiles_def Let_def py_get_def)

lemma response_success:
  "py_get (fst (process_captcha_tiles svc tiles target g)) ''success''
     = Some (PBool (matching_indices (fallback svc tiles (after_loop svc tiles target g)) \<noteq> []))"
  by (simp add: process_captcha_tiles_def Let_def py_get_def)

lemma response_processed:
  "py_get (fst (process_captcha_tiles svc tiles target g)) ''processed_tiles''
     = Some (PInt (length (filter has_payload tiles)))"
  by (simp add: process_captcha_tiles_def Let_def py_get_def fallback_processed_count
      after_loop_processed_count)

lemma response_total:
  "py_get (fst (process_captcha_tiles svc tiles target g)) ''total_tiles'' = Some (PInt (length tiles))"
  by (simp add: process_captcha_tiles_def Let_def py_get_def)

lemma response_log:
  "NoMatchesFallback \<in> set (log_entries (snd (process_captcha_tiles svc tiles target g))) \<longleftrightarrow>
   matching_indices (after_loop svc tiles target g) = [] \<and> 0 < processed_count (after_loop svc tiles target g)"
  by (simp add: process_captcha_tiles_def Let_def fallback_log after_loop_log)

lemma sample_nonempty:
  assumes "sample_contract svc" and "0 < n"
  shows "fst (random_sample svc n (min 3 n) g) \<noteq> []"
proof -
  have "length (fst (random_sample svc n (min 3 n) g)) = min 3 n"
    using assms(1) unfolding sample_contract_def by simp
  with assms(2) show ?thesis by auto
qed

lemma sample_distinct_in_range:
  assumes "sample_contract svc"
  shows "distinct (fst (random_sample svc n (min 3 n) g))
         \<and> (\<forall>i \<in> set (fst (random_sample svc n (min 3 n) g)). i < n)"
proof -
  have "min 3 n \<le> n" by simp
  with assms show ?thesis unfolding sample_contract_def by blast
qed

lemma demo_decode_failure: "enhanced_ocr_process demo_service ''corrupt'' ''47'' () =
   ([(''success'', PBool False), (''error'', PStr ''Image decode failed'')], ())"
  by (simp add: enhanced_ocr_process_def demo_service_def)

lemma demo_preprocess:
  "b \<noteq> ''truncated'' \<Longrightarrow> preprocess_image demo_imaging b = Inr [b, b, b, b, b]"
  by (simp add: preprocess_image_def demo_imaging_def opencv_variants_def)

lemma demo_easyocr:
  "findall_digits b = [b] \<Longrightarrow> 2 \<le> length b \<Longrightarrow>
   extract_numbers_easyocr (easyocr demo_service) b = [(b, 9 / 10)]"
  by (simp add: extract_numbers_easyocr_def demo_service_def confidence_threshold_def)

lemma demo_recognise:
  assumes "findall_digits b = [b]" and "2 \<le> length b"
  shows "recognise_variants demo_service [b, b, b, b, b] g = (replicate 5 (b, 9 / 10), g)"
proof -
  have p: "pattern_matching demo_service = (\<lambda>img g. ([], g))"
    and t: "TESSERACT_AVAILABLE (tesseract demo_service) = False"
    and e: "EASYOCR_AVAILABLE (easyocr demo_service) = True"
    by (simp_all add: demo_service_def)
  show ?thesis by (simp add: p t e demo_easyocr [OF assms] numeral_eq_Suc)
qed

lemma demo_tile_detections:
  assumes "findall_digits b = [b]" and "2 \<le> length b"
    and "b \<noteq> ''corrupt''" and "b \<noteq> ''truncated''"
  shows "tile_detections demo_service (demo_tile b) g = Some (replicate 5 (b, 9 / 10))"
proof -
  have d: "decode_image demo_service b = Some b" and i: "imaging demo_service = demo_imaging"
    using assms(3) by (simp_all add: demo_service_def)
  have n: "b \<noteq> []" using assms(2) by auto
  show ?thesis
    using n
    by (simp add: tile_detections_def demo_tile_def d i demo_preprocess [OF assms(4)]
        demo_recognise [OF assms(1,2)] del: recognise_variants.simps)
qed

lemma demo_three_corrupt: "fst (process_captcha_tiles demo_service [demo_tile ''corrupt'', demo_tile ''corrupt'', demo_tile ''corrupt''] ''47'' ())
  = [(''target'', PStr ''47''), (''matching_indices'', PInts [2, 1, 0]), (''processed_tiles'', PInt 3),
     (''total_tiles'', PInt 3), (''success'', PBool True), (''method'', PStr ''enhanced_ocr'')]"
proof -
  have r: "random_sample demo_service = (\<lambda>n k g. (rev [n - k..<n], g))"
    by (simp add: demo_service_def)
  show ?thesis
    by (simp add: process_captcha_tiles_def after_loop_def fallback_def tile_step_def demo_tile_def
      demo_decode_failure py_get_def Let_def r upt_rec)
qed

lemma demo_sample_contract: "sample_contract demo_service"
  by (auto simp: sample_contract_def demo_service_def)

lemma demo_corrupt_batch:
  "process_captcha_tiles demo_service [demo_tile ''corrupt''] ''47'' () =
    ([(''target'', PStr ''47''), (''matching_indices'', PInts [0]), (''processed_tiles'', PInt 1),
      (''total_tiles'', PInt 1), (''success'', PBool True), (''method'', PStr ''enhanced_ocr'')],
     \<lparr>matching_indices = [0], processed_count = 1,
      log_entries = [Processing 1 ''47'', NoMatchesFallback, FallbackSelected [0], Completed 1],
      rng = ()\<rparr>)"
proof -
  have r: "random_sample demo_service = (\<lambda>n k g. (rev [n - k..<n], g))"
    by (simp add: demo_service_def)
  show ?thesis
    by (simp add: process_captcha_tiles_def after_loop_def fallback_def tile_step_def demo_tile_def
      demo_decode_failure py_get_def Let_def r)
qed

lemma demo_empty_tile_batch:
  "fst (process_captcha_tiles demo_service [Map.empty] ''47'' ()) =
    [(''target'', PStr ''47''), (''matching_indices'', PInts []), (''processed_tiles'', PInt 0),
      (''total_tiles'', PInt 1), (''success'', PBool False), (''method'', PStr ''enhanced_ocr'')]"
  by (simp add: process_captcha_tiles_def after_loop_def fallback_def tile_step_def Let_def)

text \<open>C1, as stated, fails: the returned dictionary has no entry \<open>usedFallback\<close>. Here
  the only tile does not decode, the fallback fires (its warning is logged), and the
  response does not say so.\<close>

theorem used_fallback_absent_counterexample:
  "NoMatchesFallback \<in> set (log_entries (snd (process_captcha_tiles demo_service [demo_tile ''corrupt''] ''47'' ())))
   \<and> py_get (fst (process_captcha_tiles demo_service [demo_tile ''corrupt''] ''47'' ())) ''usedFallback'' = None"
  by (simp add: demo_corrupt_batch py_get_def)

text \<open>C1 (amended): the response of \<open>process_captcha_tiles\<close> has exactly the entries
  target, matching\_indices, processed\_tiles, total\_tiles, success and method, and no
  entry usedFallback. The fallback fires (which only the log shows) if and only if the
  loop recorded no matching tile and processed at least one tile.\<close>

theorem response_fields_and_fallback:
  "map fst (fst (process_captcha_tiles svc tiles target g))
     = [''target'', ''matching_indices'', ''processed_tiles'', ''total_tiles'', ''success'', ''method'']
   \<and> py_get (fst (process_captcha_tiles svc tiles target g)) ''usedFallback'' = None
   \<and> (NoMatchesFallback \<in> set (log_entries (snd (process_captcha_tiles svc tiles target g)))
        \<longleftrightarrow> matching_indices (after_loop svc tiles target g) = []
            \<and> 0 < processed_count (after_loop svc tiles target g))"
proof (intro conjI)
  show "map fst (fst (process_captcha_tiles svc tiles target g))
     = [''target'', ''matching_indices'', ''processed_tiles'', ''total_tiles'', ''success'', ''method'']"
    by (simp add: process_captcha_tiles_def Let_def)
  show "py_get (fst (process_captcha_tiles svc tiles target g)) ''usedFallback'' = None"
    by (simp add: process_captcha_tiles_def Let_def py_get_def)
  show "NoMatchesFallback \<in> set (log_entries (snd (process_captcha_tiles svc tiles target g)))
        \<longleftrightarrow> matching_indices (after_loop svc tiles target g) = []
            \<and> 0 < processed_count (after_loop svc tiles target g)"
    by (rule response_log)
qed

theorem response_fields_and_fallback_witness:
  "map fst (fst (process_captcha_tiles demo_service [demo_tile ''corrupt''] ''47'' ()))
     = [''target'', ''matching_indices'', ''processed_tiles'', ''total_tiles'', ''success'', ''method'']
   \<and> NoMatchesFallback \<in> set (log_entries (snd (process_captcha_tiles demo_service [demo_tile ''corrupt''] ''47'' ())))
   \<and> matching_indices (after_loop demo_service [demo_tile ''corrupt''] ''47'' ()) = []
   \<and> 0 < processed_count (after_loop demo_service [demo_tile ''corrupt''] ''47'' ())"
  using response_fields_and_fallback [of demo_service "[demo_tile ''corrupt'']" "''47''" "()"]
  by (simp add: demo_corrupt_batch)

text \<open>C2, as stated, fails: a batch of one tile that has no \<open>base64Image\<close> entry is
  not empty, nothing is processed, the fallback does not fire and success is False.\<close>

theorem success_false_counterexample:
  "[Map.empty :: tile] \<noteq> []
   \<and> py_get (fst (process_captcha_tiles demo_service [Map.empty] ''47'' ())) ''success'' = Some (PBool False)
   \<and> py_get (fst (process_captcha_tiles demo_service [Map.empty] ''47'' ())) ''matching_indices'' = Some (PInts [])"
  by (simp add: demo_empty_tile_batch py_get_def)

text \<open>C2 (amended): with \<open>random.sample\<close> keeping its contract, the result has
  success = true, and a non-empty list of matching indices, exactly for the batches in
  which at least one tile carries a non-empty \<open>base64Image\<close>: whenever such a tile was
  processed and none matched, the fallback selects at least one index.\<close>

theorem success_iff_some_tile_processed:
  assumes "sample_contract svc"
  shows "py_get (fst (process_captcha_tiles svc tiles target g)) ''success''
           = Some (PBool (\<exists>tile \<in> set tiles. has_payload tile))
         \<and> (\<exists>xs. py_get (fst (process_captcha_tiles svc tiles target g)) ''matching_indices''
                    = Some (PInts xs)
                \<and> (xs \<noteq> [] \<longleftrightarrow> (\<exists>tile \<in> set tiles. has_payload tile)))"
proof -
  let ?st = "after_loop svc tiles target g"
  let ?xs = "matching_indices (fallback svc tiles ?st)"
  have pc: "processed_count ?st = length (filter has_payload tiles)"
    by (rule after_loop_processed_count)
  have key: "?xs \<noteq> [] \<longleftrightarrow> (\<exists>tile \<in> set tiles. has_payload tile)"
  proof (cases "\<exists>tile \<in> set tiles. has_payload tile")
    case True
    then have "filter has_payload tiles \<noteq> []" by (simp add: filter_empty_conv)
    then have pos: "0 < processed_count ?st" using pc by simp
    have "0 < length tiles" using True by auto
    then have "fst (random_sample svc (length tiles) (min 3 (length tiles)) (rng ?st)) \<noteq> []"
      using assms by (rule sample_nonempty [rotated])
    then have "?xs \<noteq> []" using pos by (simp add: fallback_matching)
    with True show ?thesis by simp
  next
    case False
    then have "filter has_payload tiles = []" by (simp add: filter_empty_conv)
    then have z: "processed_count ?st = 0" using pc by simp
    then have "matching_indices ?st = []" by (rule after_loop_none_processed)
    then have "?xs = []" using z by (simp add: fallback_matching)
    with False show ?thesis by simp
  qed
  show ?thesis
    using key by (simp add: response_success response_matching)
qed

theorem success_iff_some_tile_processed_witness:
  "sample_contract demo_service
   \<and> py_get (fst (process_captcha_tiles demo_service [demo_tile ''corrupt''] ''47'' ())) ''success''
       = Some (PBool True)
   \<and> has_payload (demo_tile ''corrupt'')
   \<and> py_get (fst (process_captcha_tiles demo_service [Map.empty] ''47'' ())) ''success''
       = Some (PBool False)
   \<and> \<not> has_payload Map.empty"
  using success_iff_some_tile_processed [OF demo_sample_contract, of "[demo_tile ''corrupt'']" "''47''" "()"]
    success_iff_some_tile_processed [OF demo_sample_contract, of "[Map.empty]" "''47''" "()"]
    demo_sample_contract
  by (simp add: has_payload_def demo_tile_def)

text \<open>C3, as stated, fails when the fallback fires: \<open>random.sample\<close> returns the indices
  in the order drawn, and the list is returned unsorted. Here none of three tiles decodes
  and the indices come back as 2, 1, 0.\<close>

theorem fallback_order_counterexample:
  "py_get (fst (process_captcha_tiles demo_service
       [demo_tile ''corrupt'', demo_tile ''corrupt'', demo_tile ''corrupt''] ''47'' ())) ''matching_indices''
     = Some (PInts [2, 1, 0])
   \<and> \<not> sorted_wrt (<) [2, 1, 0 :: nat]"
  by (simp add: demo_three_corrupt py_get_def)

text \<open>C3 (amended): with \<open>random.sample\<close> keeping its contract, the returned
  matching\_indices has no duplicate and every element is less than total\_tiles, for
  every batch; it is strictly ascending for every batch in which the fallback did not
  fire. Under the fallback the order is the order in which the indices were drawn.\<close>

theorem matching_indices_distinct_in_range:
  assumes "sample_contract svc"
  shows "\<exists>xs. py_get (fst (process_captcha_tiles svc tiles target g)) ''matching_indices''
                 = Some (PInts xs)
           \<and> py_get (fst (process_captcha_tiles svc tiles target g)) ''total_tiles''
                 = Some (PInt (length tiles))
           \<and> distinct xs \<and> (\<forall>i \<in> set xs. i < length tiles)
           \<and> (NoMatchesFallback \<notin> set (log_entries (snd (process_captcha_tiles svc tiles target g)))
                \<longrightarrow> sorted_wrt (<) xs)"
proof -
  let ?st = "after_loop svc tiles target g"
  let ?xs = "matching_indices (fallback svc tiles ?st)"
  have asc: "sorted_wrt (<) (matching_indices ?st)"
    and rng: "\<forall>i \<in> set (matching_indices ?st). i < length tiles"
    using after_loop_ascending [of svc tiles target g] by simp_all
  have d: "distinct (matching_indices ?st)"
    using asc by (simp add: strict_sorted_iff)
  have s: "distinct (fst (random_sample svc (length tiles) (min 3 (length tiles)) (rng ?st)))
         \<and> (\<forall>i \<in> set (fst (random_sample svc (length tiles) (min 3 (length tiles)) (rng ?st))). i < length tiles)"
    using assms by (rule sample_distinct_in_range)
  have 1: "distinct ?xs" using d s by (simp add: fallback_matching)
  have 2: "\<forall>i \<in> set ?xs. i < length tiles" using rng s by (simp add: fallback_matching)
  have 3: "NoMatchesFallback \<notin> set (log_entries (snd (process_captcha_tiles svc tiles target g)))
                \<longrightarrow> sorted_wrt (<) ?xs"
    using asc by (auto simp: response_log fallback_matching)
  show ?thesis
    using 1 2 3 by (simp add: response_matching response_total)
qed

theorem matching_indices_distinct_in_range_witness:
  "sample_contract demo_service
   \<and> py_get (fst (process_captcha_tiles demo_service
       [demo_tile ''corrupt'', demo_tile ''corrupt'', demo_tile ''corrupt''] ''47'' ())) ''matching_indices''
     = Some (PInts [2, 1, 0])
   \<and> distinct [2, 1, 0 :: nat] \<and> set [2, 1, 0 :: nat] \<subseteq> {..<3}"
  using matching_indices_distinct_in_range [OF demo_sample_contract,
      of "[demo_tile ''corrupt'', demo_tile ''corrupt'', demo_tile ''corrupt'']" "''47''" "()"]
    demo_sample_contract
  by (simp add: demo_three_corrupt py_get_def)

subsection \<open>Skipped and undecodable tiles\<close>

lemma tiles_loop_append:
  "tiles_loop svc target idx (A @ B) st =
     tiles_loop svc target (idx + length A) B (tiles_loop svc target idx A st)"
  by (induction A arbitrary: idx st) simp_all

lemma tile_step_related:
  assumes "rng st' = rng st" and "matching_indices st' = map f (matching_indices st)"
    and "f idx = idx'"
  shows "rng (tile_step svc target idx' tile st') = rng (tile_step svc target idx tile st)
       \<and> matching_indices (tile_step svc target idx' tile st')
           = map f (matching_indices (tile_step svc target idx tile st))"
  using assms by (auto simp: tile_step_def Let_def split: option.splits prod.splits)

lemma tiles_loop_related:
  assumes "rng st' = rng st" and "matching_indices st' = map f (matching_indices st)"
    and "\<forall>j < length tiles. f (idx + j) = idx' + j"
  shows "rng (tiles_loop svc target idx' tiles st') = rng (tiles_loop svc target idx tiles st)
       \<and> matching_indices (tiles_loop svc target idx' tiles st')
           = map f (matching_indices (tiles_loop svc target idx tiles st))"
  using assms
proof (induction tiles arbitrary: idx idx' st st')
  case Nil
  then show ?case by simp
next
  case (Cons tile tiles)
  have f0: "f idx = idx'" using Cons.prems(3) by auto
  have step: "rng (tile_step svc target idx' tile st') = rng (tile_step svc target idx tile st)"
    "matching_indices (tile_step svc target idx' tile st')
           = map f (matching_indices (tile_step svc target idx tile st))"
    using tile_step_related [OF Cons.prems(1,2) f0, of svc target tile] by simp_all
  have fs: "\<forall>j < length tiles. f (Suc idx + j) = Suc idx' + j"
  proof (intro allI impI)
    fix j assume "j < length tiles"
    then have "Suc j < length (tile # tiles)" by simp
    then have "f (idx + Suc j) = idx' + Suc j" using Cons.prems(3) by blast
    then show "f (Suc idx + j) = Suc idx' + j" by simp
  qed
  show ?case
    using Cons.IH [OF step fs] by simp
qed

lemma insert_inert_tile:
  assumes inert: "\<And>idx st. rng (tile_step svc target idx t st) = rng st
              \<and> matching_indices (tile_step svc target idx t st) = matching_indices st"
  shows "rng (after_loop svc (A @ t # B) target g) = rng (after_loop svc (A @ B) target g)
       \<and> matching_indices (after_loop svc (A @ t # B) target g)
           = map (\<lambda>i. if i < length A then i else Suc i)
               (matching_indices (after_loop svc (A @ B) target g))"
proof -
  let ?f = "\<lambda>i. if i < length A then i else Suc i"
  let ?s0 = "\<lparr>matching_indices = [], processed_count = 0,
        log_entries = [Processing (length (A @ B)) target], rng = g\<rparr>"
  let ?s0' = "\<lparr>matching_indices = [], processed_count = 0,
        log_entries = [Processing (length (A @ t # B)) target], rng = g\<rparr>"
  let ?sA = "tiles_loop svc target 0 A ?s0"
  let ?sA' = "tiles_loop svc target 0 A ?s0'"
  let ?sT = "tile_step svc target (length A) t ?sA'"
  have a: "rng ?sA' = rng ?sA \<and> matching_indices ?sA' = map ?f (matching_indices ?sA)"
    by (rule tiles_loop_related) simp_all
  have t: "rng ?sT = rng ?sA" "matching_indices ?sT = map ?f (matching_indices ?sA)"
    using a inert [of "length A" ?sA'] by simp_all
  have b: "rng (tiles_loop svc target (Suc (length A)) B ?sT)
             = rng (tiles_loop svc target (length A) B ?sA)
       \<and> matching_indices (tiles_loop svc target (Suc (length A)) B ?sT)
           = map ?f (matching_indices (tiles_loop svc target (length A) B ?sA))"
    by (rule tiles_loop_related [OF t]) simp
  have l: "after_loop svc (A @ t # B) target g = tiles_loop svc target (Suc (length A)) B ?sT"
    unfolding after_loop_def by (simp only: tiles_loop_append tiles_loop.simps add_0)
  have r: "after_loop svc (A @ B) target g = tiles_loop svc target (length A) B ?sA"
    unfolding after_loop_def by (simp only: tiles_loop_append add_0)
  show ?thesis using b by (simp only: l r)
qed

lemma shifted_misses:
  "length A \<notin> set (map (\<lambda>i. if i < length A then i else Suc i) xs)"
  by (induction xs) auto

lemma tile_step_corrupt:
  assumes "t ''base64Image'' = Some b" and "b \<noteq> []" and "decode_image svc b = None"
  shows "tile_step svc target idx t st = st\<lparr>processed_count := processed_count st + 1\<rparr>"
  using assms by (simp add: tile_step_def enhanced_ocr_process_def py_get_def)

text \<open>C4, as stated, fails: \<open>enhanced_ocr_process\<close> answers a payload that does not
  decode with a failure dictionary instead of raising, and \<open>processed_count\<close> is
  incremented all the same. Here the first of two tiles is corrupt, the second decodes,
  and processed\_tiles is 2, which is total\_tiles and not total\_tiles - 1.\<close>

theorem corrupt_tile_counted_counterexample:
  "decode_image demo_service ''corrupt'' = None
   \<and> decode_image demo_service ''47'' = Some ''47''
   \<and> py_get (fst (process_captcha_tiles demo_service [demo_tile ''corrupt'', demo_tile ''47''] ''47'' ()))
        ''processed_tiles'' = Some (PInt 2)
   \<and> py_get (fst (process_captcha_tiles demo_service [demo_tile ''corrupt'', demo_tile ''47''] ''47'' ()))
        ''total_tiles'' = Some (PInt 2)
   \<and> (2 :: nat) \<noteq> 2 - 1"
  by (simp add: response_processed response_total has_payload_def demo_tile_def demo_service_def)

text \<open>C4 (amended): a batch with one tile whose non-empty payload does not decode
  still returns a result covering the other tiles: they are processed exactly as in the
  batch without that tile (same matches, at their own positions, same random state), and
  the corrupt tile is never a recognised match. The corrupt tile is counted:
  processed\_tiles is one more than for the batch without it, it counts the tiles that
  carry a non-empty payload, and it equals total\_tiles when every other tile carries
  one.\<close>

theorem corrupt_tile_still_counted:
  assumes "t ''base64Image'' = Some b" and "b \<noteq> []" and "decode_image svc b = None"
  shows "py_get (fst (process_captcha_tiles svc (A @ t # B) target g)) ''processed_tiles''
           = Some (PInt (Suc (length (filter has_payload (A @ B)))))
       \<and> py_get (fst (process_captcha_tiles svc (A @ B) target g)) ''processed_tiles''
           = Some (PInt (length (filter has_payload (A @ B))))
       \<and> ((\<forall>tile \<in> set (A @ B). has_payload tile) \<longrightarrow>
            py_get (fst (process_captcha_tiles svc (A @ t # B) target g)) ''processed_tiles''
              = py_get (fst (process_captcha_tiles svc (A @ t # B) target g)) ''total_tiles'')
       \<and> matching_indices (after_loop svc (A @ t # B) target g)
           = map (\<lambda>i. if i < length A then i else Suc i)
               (matching_indices (after_loop svc (A @ B) target g))
       \<and> rng (after_loop svc (A @ t # B) target g) = rng (after_loop svc (A @ B) target g)
       \<and> length A \<notin> set (matching_indices (after_loop svc (A @ t # B) target g))"
proof -
  have p: "has_payload t" using assms(1,2) by (simp add: has_payload_def)
  have inert: "\<And>idx st. rng (tile_step svc target idx t st) = rng st
              \<and> matching_indices (tile_step svc target idx t st) = matching_indices st"
    by (simp add: tile_step_corrupt [where t = t and b = b and svc = svc, OF assms])
  have rel: "rng (after_loop svc (A @ t # B) target g) = rng (after_loop svc (A @ B) target g)
       \<and> matching_indices (after_loop svc (A @ t # B) target g)
           = map (\<lambda>i. if i < length A then i else Suc i)
               (matching_indices (after_loop svc (A @ B) target g))"
    using inert by (rule insert_inert_tile)
  have miss: "length A \<notin> set (matching_indices (after_loop svc (A @ t # B) target g))"
    using rel shifted_misses [of A] by simp
  have full: "(\<forall>tile \<in> set (A @ B). has_payload tile) \<longrightarrow>
      length (filter has_payload (A @ t # B)) = length (A @ t # B)"
    using p by (auto simp: filter_id_conv)
  show ?thesis
    using p rel miss full by (simp add: response_processed response_total)
qed

theorem corrupt_tile_still_counted_witness:
  "demo_tile ''corrupt'' ''base64Image'' = Some ''corrupt'' \<and> ''corrupt'' \<noteq> []
   \<and> decode_image demo_service ''corrupt'' = None
   \<and> py_get (fst (process_captcha_tiles demo_service ([] @ demo_tile ''corrupt'' # [demo_tile ''47'']) ''47'' ()))
        ''processed_tiles'' = Some (PInt 2)
   \<and> py_get (fst (process_captcha_tiles demo_service ([] @ demo_tile ''corrupt'' # [demo_tile ''47'']) ''47'' ()))
        ''total_tiles'' = Some (PInt 2)
   \<and> 0 \<notin> set (matching_indices (after_loop demo_service ([] @ demo_tile ''corrupt'' # [demo_tile ''47'']) ''47'' ()))"
proof -
  have h: "demo_tile ''corrupt'' ''base64Image'' = Some ''corrupt''" "''corrupt'' \<noteq> []"
    "decode_image demo_service ''corrupt'' = None"
    by (simp_all add: demo_tile_def demo_service_def)
  have q: "has_payload (demo_tile ''47'')" by (simp add: has_payload_def demo_tile_def)
  from corrupt_tile_still_counted [where t = "demo_tile ''corrupt''" and b = "''corrupt''"
      and svc = demo_service and A = "[]" and B = "[demo_tile ''47'']" and target = "''47''"
      and g = "()", OF h] h q
  show ?thesis by (simp add: response_total)
qed

text \<open>C10: a tile with no \<open>base64Image\<close> entry, or an empty one, is skipped. It is not
  counted in processed\_tiles; it is never a recognised match; the other tiles are
  processed exactly as in the batch without it (same matches, at their own positions,
  same random state). It counts in total\_tiles, and when the fallback fires the indices
  are sampled from the whole range, the skipped tile's index included.\<close>

theorem tile_without_payload_skipped:
  assumes "\<not> has_payload t"
  shows "py_get (fst (process_captcha_tiles svc (A @ t # B) target g)) ''processed_tiles''
           = py_get (fst (process_captcha_tiles svc (A @ B) target g)) ''processed_tiles''
       \<and> length A \<notin> set (matching_indices (after_loop svc (A @ t # B) target g))
       \<and> matching_indices (after_loop svc (A @ t # B) target g)
           = map (\<lambda>i. if i < length A then i else Suc i)
               (matching_indices (after_loop svc (A @ B) target g))
       \<and> rng (after_loop svc (A @ t # B) target g) = rng (after_loop svc (A @ B) target g)
       \<and> py_get (fst (process_captcha_tiles svc (A @ t # B) target g)) ''total_tiles''
           = Some (PInt (Suc (length (A @ B))))
       \<and> (NoMatchesFallback \<in> set (log_entries (snd (process_captcha_tiles svc (A @ t # B) target g)))
            \<longrightarrow> py_get (fst (process_captcha_tiles svc (A @ t # B) target g)) ''matching_indices''
                  = Some (PInts (fst (random_sample svc (Suc (length (A @ B)))
                       (min 3 (Suc (length (A @ B)))) (rng (after_loop svc (A @ B) target g))))))"
proof -
  have inert: "\<And>idx st. rng (tile_step svc target idx t st) = rng st
              \<and> matching_indices (tile_step svc target idx t st) = matching_indices st"
    by (simp add: tile_step_skip [OF assms])
  have rel: "rng (after_loop svc (A @ t # B) target g) = rng (after_loop svc (A @ B) target g)
       \<and> matching_indices (after_loop svc (A @ t # B) target g)
           = map (\<lambda>i. if i < length A then i else Suc i)
               (matching_indices (after_loop svc (A @ B) target g))"
    using inert by (rule insert_inert_tile)
  have miss: "length A \<notin> set (matching_indices (after_loop svc (A @ t # B) target g))"
    using rel shifted_misses [of A] by simp
  have fb: "NoMatchesFallback \<in> set (log_entries (snd (process_captcha_tiles svc (A @ t # B) target g)))
            \<longrightarrow> py_get (fst (process_captcha_tiles svc (A @ t # B) target g)) ''matching_indices''
                  = Some (PInts (fst (random_sample svc (Suc (length (A @ B)))
                       (min 3 (Suc (length (A @ B)))) (rng (after_loop svc (A @ B) target g)))))"
    using rel by (simp add: response_log response_matching fallback_matching)
  show ?thesis
    using assms rel miss fb by (simp add: response_processed response_total)
qed

theorem tile_without_payload_skipped_witness:
  "\<not> has_payload Map.empty
   \<and> py_get (fst (process_captcha_tiles demo_service ([demo_tile ''corrupt''] @ Map.empty # []) ''47'' ()))
        ''processed_tiles'' = Some (PInt 1)
   \<and> py_get (fst (process_captcha_tiles demo_service ([demo_tile ''corrupt''] @ Map.empty # []) ''47'' ()))
        ''total_tiles'' = Some (PInt 2)
   \<and> py_get (fst (process_captcha_tiles demo_service ([demo_tile ''corrupt''] @ Map.empty # []) ''47'' ()))
        ''matching_indices'' = Some (PInts [1, 0])"
proof -
  have h: "\<not> has_payload Map.empty" by (simp add: has_payload_def)
  have r: "random_sample demo_service = (\<lambda>n k g. (rev [n - k..<n], g))"
    by (simp add: demo_service_def)
  have f: "NoMatchesFallback \<in> set (log_entries (snd
      (process_captcha_tiles demo_service ([demo_tile ''corrupt''] @ Map.empty # []) ''47'' ())))"
    by (simp add: process_captcha_tiles_def after_loop_def fallback_def tile_step_def demo_tile_def
      demo_decode_failure py_get_def Let_def r)
  from tile_without_payload_skipped [OF h, of demo_service "[demo_tile ''corrupt'']" "[]" "''47''" "()"] h f
  show ?thesis
    by (simp add: response_processed has_payload_def demo_tile_def r upt_rec)
qed

subsection \<open>The scenario of target 47\<close>

lemma tile_step_detections:
  assumes "tile_detections svc tile (rng st) = Some ds"
  shows "matching_indices (tile_step svc target idx tile st)
           = matching_indices st @ (if consolidate_results ds target \<noteq> [] then [idx] else [])"
  using assms
  by (auto simp: tile_detections_def tile_step_def enhanced_ocr_process_def py_get_def Let_def
      split: option.splits sum.splits prod.splits if_splits)

lemma consolidate_single_text:
  assumes "fst ` set ds = {out}"
  shows "consolidate_results ds target \<noteq> [] \<longleftrightarrow>
           text_matches_target out target \<or> fuzzy_match out target"
proof -
  have "consolidate_results ds target \<noteq> [] \<longleftrightarrow> set (consolidate_results ds target) \<noteq> {}"
    by simp
  also have "\<dots> \<longleftrightarrow> text_matches_target out target \<or> fuzzy_match out target"
    unfolding set_consolidate_results assms by auto
  finally show ?thesis .
qed

lemma tile_step_single_text:
  assumes "\<forall>g. \<exists>ds. tile_detections svc tile g = Some ds \<and> fst ` set ds = {out}"
  shows "matching_indices (tile_step svc target idx tile st)
           = matching_indices st
             @ (if text_matches_target out target \<or> fuzzy_match out target then [idx] else [])"
proof -
  obtain ds where ds: "tile_detections svc tile (rng st) = Some ds" "fst ` set ds = {out}"
    using assms by blast
  show ?thesis
    using tile_step_detections [OF ds(1), of target idx] consolidate_single_text [OF ds(2), of target]
    by simp
qed

lemma reverse_matches: "rev t = target \<Longrightarrow> text_matches_target t target"
  by (simp add: text_matches_target_def)

text \<open>C5: for target 47 and five tiles whose recognizer outputs are 47, 74, 12, 47 and
  99, the batch result is matching\_indices = [0, 1, 3] and the fallback is not invoked.
  Tile 1 matches in the first pass: 74 is neither equal to 47 nor contained in it nor
  containing it, and a text whose reverse is the target matches.\<close>

theorem scenario_target_47:
  assumes "length tiles = 5"
    and "\<forall>i < 5. \<forall>g. \<exists>ds. tile_detections svc (tiles ! i) g = Some ds
           \<and> fst ` set ds = {[''47'', ''74'', ''12'', ''47'', ''99''] ! i}"
  shows "py_get (fst (process_captcha_tiles svc tiles ''47'' g)) ''matching_indices''
           = Some (PInts [0, 1, 3])
       \<and> NoMatchesFallback \<notin> set (log_entries (snd (process_captcha_tiles svc tiles ''47'' g)))
       \<and> ''74'' \<noteq> ''47'' \<and> \<not> py_in ''47'' ''74'' \<and> \<not> py_in ''74'' ''47''
       \<and> text_matches_target ''74'' ''47''
       \<and> exact_pass [(''74'', c)] ''47'' = [''74'']
       \<and> text_matches_target (rev target) target"
proof -
  obtain t0 t1 t2 t3 t4 where tiles: "tiles = [t0, t1, t2, t3, t4]"
    using assms(1) by (auto simp: length_Suc_conv numeral_eq_Suc)
  have h: "\<And>i. i < 5 \<Longrightarrow> \<forall>g. \<exists>ds. tile_detections svc (tiles ! i) g = Some ds
           \<and> fst ` set ds = {[''47'', ''74'', ''12'', ''47'', ''99''] ! i}"
    using assms(2) by blast
  have m47: "text_matches_target ''47'' ''47''"
    and m74: "text_matches_target ''74'' ''47''"
    and m12: "\<not> text_matches_target ''12'' ''47''" "\<not> fuzzy_match ''12'' ''47''"
    and m99: "\<not> text_matches_target ''99'' ''47''" "\<not> fuzzy_match ''99'' ''47''"
    by (simp_all add: text_matches_target_def fuzzy_match_def differences_def similarity_threshold_def)
  have s0: "\<And>idx st. matching_indices (tile_step svc ''47'' idx t0 st) = matching_indices st @ [idx]"
    using tile_step_single_text [of svc t0 "''47''" "''47''"] h [of 0] m47 by (simp add: tiles)
  have s1: "\<And>idx st. matching_indices (tile_step svc ''47'' idx t1 st) = matching_indices st @ [idx]"
    using tile_step_single_text [of svc t1 "''74''" "''47''"] h [of 1] m74 by (simp add: tiles)
  have s2: "\<And>idx st. matching_indices (tile_step svc ''47'' idx t2 st) = matching_indices st"
    using tile_step_single_text [of svc t2 "''12''" "''47''"] h [of 2] m12 by (simp add: tiles)
  have s3: "\<And>idx st. matching_indices (tile_step svc ''47'' idx t3 st) = matching_indices st @ [idx]"
    using tile_step_single_text [of svc t3 "''47''" "''47''"] h [of 3] m47
    by (simp add: tiles numeral_3_eq_3)
  have s4: "\<And>idx st. matching_indices (tile_step svc ''47'' idx t4 st) = matching_indices st"
    using tile_step_single_text [of svc t4 "''99''" "''47''"] h [of 4] m99
    by (simp add: tiles numeral_eq_Suc)
  have loop: "matching_indices (after_loop svc tiles ''47'' g) = [0, 1, 3]"
    by (simp add: after_loop_def tiles s0 s1 s2 s3 s4 numeral_3_eq_3)
  have 1: "py_get (fst (process_captcha_tiles svc tiles ''47'' g)) ''matching_indices''
           = Some (PInts [0, 1, 3])"
    by (simp add: response_matching fallback_matching loop)
  have 2: "NoMatchesFallback \<notin> set (log_entries (snd (process_captcha_tiles svc tiles ''47'' g)))"
    by (simp add: response_log loop)
  have 3: "exact_pass [(''74'', c)] ''47'' = [''74'']"
    using m74 by (simp add: exact_pass_def)
  have 4: "text_matches_target (rev target) target"
    by (rule reverse_matches) simp
  show ?thesis using 1 2 3 4 m74 by simp
qed

lemma demo_findall:
  "findall_digits ''47'' = [''47'']" "findall_digits ''74'' = [''74'']"
  "findall_digits ''12'' = [''12'']" "findall_digits ''99'' = [''99'']"
  by (simp_all add: findall_digits_def is_decimal_def)

lemma demo_scenario_detections:
  "\<forall>i < 5. \<forall>g. \<exists>ds.
      tile_detections demo_service
        ([demo_tile ''47'', demo_tile ''74'', demo_tile ''12'', demo_tile ''47'', demo_tile ''99''] ! i) g
        = Some ds
      \<and> fst ` set ds = {[''47'', ''74'', ''12'', ''47'', ''99''] ! i}"
proof (intro allI impI)
  fix i :: nat and g :: unit
  assume "i < 5"
  then consider "i = 0" | "i = 1" | "i = 2" | "i = 3" | "i = 4" by linarith
  then show "\<exists>ds. tile_detections demo_service
        ([demo_tile ''47'', demo_tile ''74'', demo_tile ''12'', demo_tile ''47'', demo_tile ''99''] ! i) g
        = Some ds
      \<and> fst ` set ds = {[''47'', ''74'', ''12'', ''47'', ''99''] ! i}"
  proof cases
    case 1
    then show ?thesis using demo_tile_detections [of "''47''" g] by (simp add: demo_findall)
  next
    case 2
    then show ?thesis using demo_tile_detections [of "''74''" g] by (simp add: demo_findall)
  next
    case 3
    then show ?thesis using demo_tile_detections [of "''12''" g] by (simp add: demo_findall)
  next
    case 4
    then show ?thesis using demo_tile_detections [of "''47''" g] by (simp add: demo_findall)
  next
    case 5
    then show ?thesis using demo_tile_detections [of "''99''" g] by (simp add: demo_findall)
  qed
qed

theorem scenario_target_47_witness:
  "length [demo_tile ''47'', demo_tile ''74'', demo_tile ''12'', demo_tile ''47'', demo_tile ''99''] = 5
   \<and> tile_detections demo_service (demo_tile ''74'') () = Some (replicate 5 (''74'', 9 / 10))
   \<and> py_get (fst (process_captcha_tiles demo_service
        [demo_tile ''47'', demo_tile ''74'', demo_tile ''12'', demo_tile ''47'', demo_tile ''99'']
        ''47'' ())) ''matching_indices'' = Some (PInts [0, 1, 3])
   \<and> NoMatchesFallback \<notin> set (log_entries (snd (process_captcha_tiles demo_service
        [demo_tile ''47'', demo_tile ''74'', demo_tile ''12'', demo_tile ''47'', demo_tile ''99'']
        ''47'' ())))"
proof -
  have l: "length [demo_tile ''47'', demo_tile ''74'', demo_tile ''12'', demo_tile ''47'', demo_tile ''99''] = 5"
    by simp
  have d: "tile_detections demo_service (demo_tile ''74'') () = Some (replicate 5 (''74'', 9 / 10))"
    using demo_tile_detections [of "''74''" "()"] by (simp add: demo_findall)
  from scenario_target_47 [OF l demo_scenario_detections, of "()"] l d
  show ?thesis by simp
qed

subsection \<open>A failing preprocessor within the batch\<close>

lemma enhanced_ocr_process_preprocess_failure:
  assumes "decode_image svc p = Some im" and "preprocess_image (imaging svc) im = Inl e"
  shows "enhanced_ocr_process svc p target g
           = ([(''success'', PBool False), (''error'', PStr e)], g)"
  using assms by (simp add: enhanced_ocr_process_def)


lemma demo_truncated:
  "enhanced_ocr_process demo_service ''truncated'' ''47'' ()
     = ([(''success'', PBool False), (''error'', PStr ''image file is truncated'')], ())"
proof -
  have d: "decode_image demo_service ''truncated'' = Some ''truncated''"
    and i: "preprocess_image (imaging demo_service) ''truncated'' = Inl ''image file is truncated''"
    by (simp_all add: demo_service_def preprocess_image_def demo_imaging_def)
  show ?thesis
    by (rule enhanced_ocr_process_preprocess_failure [where svc = demo_service, OF d i])
qed





end
